theory Spec2Isabelle
  imports Main "HOL-Library.Sublist" "HOL-Library.Multiset"
begin

section \<open>Strings of the JavaScript runtime\<close>

text \<open>
  Strings are modelled as lists of ASCII characters. \<^verbatim>\<open>toUpperCase\<close> and
  \<^verbatim>\<open>toLowerCase\<close> map the 26 letters and leave every other character alone;
  \<^verbatim>\<open>s.includes(q)\<close> holds when \<open>q\<close> occurs in \<open>s\<close> as a contiguous block;
  \<^verbatim>\<open>s.substring(a, b)\<close> clamps both indices to the length of \<open>s\<close> and swaps them
  when they are out of order.
\<close>

definition lower_letters :: string where
  "lower_letters = ''abcdefghijklmnopqrstuvwxyz''"

definition upper_letters :: string where
  "upper_letters = ''ABCDEFGHIJKLMNOPQRSTUVWXYZ''"

definition upper_char :: "char \<Rightarrow> char" where
  "upper_char c = (case map_of (zip lower_letters upper_letters) c of Some u \<Rightarrow> u | None \<Rightarrow> c)"

definition lower_char :: "char \<Rightarrow> char" where
  "lower_char c = (case map_of (zip upper_letters lower_letters) c of Some l \<Rightarrow> l | None \<Rightarrow> c)"

definition toUpperCase :: "string \<Rightarrow> string" where
  "toUpperCase s = map upper_char s"

definition toLowerCase :: "string \<Rightarrow> string" where
  "toLowerCase s = map lower_char s"

definition includes_str :: "string \<Rightarrow> string \<Rightarrow> bool" where
  "includes_str s q = sublist q s"

definition substring :: "string \<Rightarrow> nat \<Rightarrow> nat \<Rightarrow> string" where
  "substring s a b =
     (let a' = min a (length s); b' = min b (length s);
          lo = min a' b'; hi = max a' b'
      in take (hi - lo) (drop lo s))"

text \<open>
  \<^verbatim>\<open>n.toString(36)\<close> on an integer: the digits \<open>0\<close>..\<open>9\<close>, \<open>a\<close>..\<open>z\<close>, most
  significant first, with a leading minus sign for a negative number.
\<close>

definition digit36 :: "nat \<Rightarrow> char" where
  "digit36 d = ''0123456789abcdefghijklmnopqrstuvwxyz'' ! (d mod 36)"

fun nat_toString36 :: "nat \<Rightarrow> string" where
  "nat_toString36 n =
     (if n < 36 then [digit36 n] else nat_toString36 (n div 36) @ [digit36 (n mod 36)])"

declare nat_toString36.simps [simp del]

definition toString36 :: "int \<Rightarrow> string" where
  "toString36 i = (if i < 0 then CHR ''-'' # nat_toString36 (nat (- i)) else nat_toString36 (nat i))"

section \<open>CreateTrack: the tracking-number generator\<close>

text \<open>
  \<^verbatim>\<open>generateTrackingNumber\<close> reads the clock and the random source of the runtime.
  Both are inputs of the model: \<open>now\<close> is the value of \<^verbatim>\<open>Date.now()\<close> (milliseconds,
  an integer) and \<open>rnd36\<close> is the text \<^verbatim>\<open>Math.random().toString(36)\<close>, the runtime's
  base-36 rendering of a double in \<open>[0, 1)\<close>: \<^verbatim>\<open>"0"\<close> for zero and otherwise
  \<^verbatim>\<open>"0."\<close> followed by the fraction digits the runtime prints (\<^verbatim>\<open>"0.i"\<close> for one half).
\<close>

definition generateTrackingNumber :: "int \<Rightarrow> string \<Rightarrow> string" where
  "generateTrackingNumber now rnd36 =
     (let prefix = ''TRK'';
          timestamp = toUpperCase (toString36 now);
          random = toUpperCase (substring rnd36 2 6)
      in prefix @ ''-'' @ timestamp @ ''-'' @ random)"

section \<open>The record store\<close>

text \<open>
  The tables of \<^verbatim>\<open>supabase/migrations/20251225111523_create_track_management_schema.sql\<close>
  that the components read and write. A uuid is an opaque identifier and a
  \<^verbatim>\<open>timestamptz\<close> a point on the store's clock; both are natural numbers here.
\<close>

type_synonym uuid = nat
type_synonym timestamptz = nat

record track_row =
  t_id :: uuid
  title :: string
  description :: string
  category_id :: "uuid option"
  status :: string
  priority :: string
  tracking_number :: string
  user_id :: uuid
  created_at :: timestamptz
  updated_at :: timestamptz

record track_update_row =
  u_id :: uuid
  u_track_id :: uuid
  u_status :: string
  message :: string
  location :: string
  u_user_id :: uuid
  u_created_at :: timestamptz

record database =
  tracks_table :: "track_row list"
  track_updates_table :: "track_update_row list"

text \<open>The values a component sends with an insert, and the columns it may send with an update.\<close>

record track_insert =
  ti_title :: string
  ti_description :: string
  ti_status :: string
  ti_priority :: string
  ti_tracking_number :: string
  ti_user_id :: uuid

record track_update_insert =
  ui_track_id :: uuid
  ui_status :: string
  ui_message :: string
  ui_location :: string
  ui_user_id :: uuid

record track_patch =
  p_title :: "string option"
  p_description :: "string option"
  p_status :: "string option"
  p_priority :: "string option"
  p_tracking_number :: "string option"

text \<open>
  Row-level security: a track is visible to, and writable by, the identity \<open>auid\<close>
  (\<^verbatim>\<open>auth.uid()\<close>) only when \<^verbatim>\<open>auth.uid() = user_id\<close>; an update entry is visible, and
  may be inserted, only when its track exists and belongs to \<open>auid\<close>.
\<close>

definition owns_track :: "uuid \<Rightarrow> database \<Rightarrow> uuid \<Rightarrow> bool" where
  "owns_track auid db tid = list_ex (\<lambda>t. t_id t = tid \<and> user_id t = auid) (tracks_table db)"

definition sql_insert_track :: "uuid \<Rightarrow> timestamptz \<Rightarrow> uuid \<Rightarrow> track_insert \<Rightarrow> database \<Rightarrow> string + database" where
  "sql_insert_track auid now new_id v db =
     (if ti_user_id v \<noteq> auid
      then Inl ''new row violates row-level security policy for table tracks''
      else if ti_tracking_number v \<in> set (map tracking_number (tracks_table db))
      then Inl ''duplicate key value violates unique constraint tracks_tracking_number_key''
      else Inr (db\<lparr>tracks_table := tracks_table db @
             [\<lparr>t_id = new_id, title = ti_title v, description = ti_description v,
               category_id = None, status = ti_status v, priority = ti_priority v,
               tracking_number = ti_tracking_number v, user_id = ti_user_id v,
               created_at = now, updated_at = now\<rparr>]\<rparr>))"

definition sql_insert_track_update :: "uuid \<Rightarrow> timestamptz \<Rightarrow> uuid \<Rightarrow> track_update_insert \<Rightarrow> database \<Rightarrow> string + database" where
  "sql_insert_track_update auid now new_id v db =
     (if ui_user_id v = auid \<and> owns_track auid db (ui_track_id v)
      then Inr (db\<lparr>track_updates_table := track_updates_table db @
             [\<lparr>u_id = new_id, u_track_id = ui_track_id v, u_status = ui_status v,
               message = ui_message v, location = ui_location v,
               u_user_id = ui_user_id v, u_created_at = now\<rparr>]\<rparr>)
      else Inl ''new row violates row-level security policy for table track_updates'')"

text \<open>
  An update writes the columns the patch names and leaves the others; the trigger
  \<^verbatim>\<open>update_tracks_updated_at\<close> then stamps \<^verbatim>\<open>updated_at\<close> on every row written.
\<close>

definition apply_patch :: "timestamptz \<Rightarrow> track_patch \<Rightarrow> track_row \<Rightarrow> track_row" where
  "apply_patch now p t =
     t\<lparr>title := (case p_title p of None \<Rightarrow> title t | Some v \<Rightarrow> v),
       description := (case p_description p of None \<Rightarrow> description t | Some v \<Rightarrow> v),
       status := (case p_status p of None \<Rightarrow> status t | Some v \<Rightarrow> v),
       priority := (case p_priority p of None \<Rightarrow> priority t | Some v \<Rightarrow> v),
       tracking_number := (case p_tracking_number p of None \<Rightarrow> tracking_number t | Some v \<Rightarrow> v),
       updated_at := now\<rparr>"

definition sql_update_tracks :: "uuid \<Rightarrow> timestamptz \<Rightarrow> uuid \<Rightarrow> track_patch \<Rightarrow> database \<Rightarrow> string + database" where
  "sql_update_tracks auid now tid p db =
     (let rows = map (\<lambda>t. if t_id t = tid \<and> user_id t = auid then apply_patch now p t else t)
                     (tracks_table db)
      in if p_tracking_number p \<noteq> None \<and> \<not> distinct (map tracking_number rows)
         then Inl ''duplicate key value violates unique constraint tracks_tracking_number_key''
         else Inr (db\<lparr>tracks_table := rows\<rparr>))"

text \<open>
  The three queries. \<^verbatim>\<open>maybeSingle()\<close> yields the row when exactly one matches and no
  data otherwise.
\<close>

definition sql_select_track :: "uuid \<Rightarrow> uuid \<Rightarrow> uuid \<Rightarrow> database \<Rightarrow> track_row option" where
  "sql_select_track auid tid uid db =
     (case filter (\<lambda>t. user_id t = auid \<and> t_id t = tid \<and> user_id t = uid) (tracks_table db) of
        [t] \<Rightarrow> Some t
      | _ \<Rightarrow> None)"

definition sql_select_track_updates :: "uuid \<Rightarrow> uuid \<Rightarrow> database \<Rightarrow> track_update_row list" where
  "sql_select_track_updates auid tid db =
     rev (sort_key u_created_at
            (filter (\<lambda>u. owns_track auid db (u_track_id u) \<and> u_track_id u = tid)
                    (track_updates_table db)))"

definition sql_select_status :: "uuid \<Rightarrow> uuid \<Rightarrow> database \<Rightarrow> string list" where
  "sql_select_status auid uid db =
     map status (filter (\<lambda>t. user_id t = auid \<and> user_id t = uid) (tracks_table db))"

section \<open>The store client\<close>

text \<open>
  A component reaches the store through requests. The world holds the tables, the
  store's clock, the next fresh uuid, the fate of the coming requests (\<open>network\<close>, one
  entry per request, a request beyond the end of the list being healthy) and the list
  of requests issued so far (\<open>wire\<close>, oldest first). A request that is \<open>Refused\<close>
  comes back with an error message and one that is \<open>Thrown\<close> raises in the caller; the
  store executes neither. A healthy request is executed by the store, which may itself
  reject it; a rejected statement leaves the tables as they were.
\<close>

datatype fault = Healthy | Refused string | Thrown

datatype request =
    InsertTrack track_insert
  | InsertTrackUpdate track_update_insert
  | UpdateTracks uuid track_patch
  | SelectTrack uuid uuid
  | SelectTrackUpdates uuid
  | SelectStatus uuid

record world =
  store :: database
  clock :: timestamptz
  next_id :: uuid
  network :: "fault list"
  wire :: "request list"

datatype 'a reply = Threw | Reply 'a

definition send :: "request \<Rightarrow> world \<Rightarrow> fault \<times> world" where
  "send rq w =
     ((case network w of [] \<Rightarrow> Healthy | f # _ \<Rightarrow> f),
      w\<lparr>network := tl (network w), wire := wire w @ [rq], clock := Suc (clock w)\<rparr>)"

text \<open>A write answers with its error (\<open>None\<close> when it went through), a read with its data
  (\<open>None\<close> when it failed).\<close>

definition write_request ::
  "request \<Rightarrow> (timestamptz \<Rightarrow> uuid \<Rightarrow> database \<Rightarrow> string + database) \<Rightarrow> world \<Rightarrow> string option reply \<times> world" where
  "write_request rq stmt w =
     (case send rq w of
        (Thrown, w') \<Rightarrow> (Threw, w')
      | (Refused m, w') \<Rightarrow> (Reply (Some m), w')
      | (Healthy, w') \<Rightarrow>
          (case stmt (clock w') (next_id w') (store w') of
             Inl m \<Rightarrow> (Reply (Some m), w')
           | Inr db' \<Rightarrow> (Reply None, w'\<lparr>store := db', next_id := Suc (next_id w')\<rparr>)))"

definition read_request :: "request \<Rightarrow> (database \<Rightarrow> 'a option) \<Rightarrow> world \<Rightarrow> 'a option reply \<times> world" where
  "read_request rq query w =
     (case send rq w of
        (Thrown, w') \<Rightarrow> (Threw, w')
      | (Refused m, w') \<Rightarrow> (Reply None, w')
      | (Healthy, w') \<Rightarrow> (Reply (query (store w')), w'))"

text \<open>The calls of the components; every request carries the identity of the signed-in user.\<close>

definition from_tracks_insert :: "uuid \<Rightarrow> track_insert \<Rightarrow> world \<Rightarrow> string option reply \<times> world" where
  "from_tracks_insert auid v = write_request (InsertTrack v) (\<lambda>now new_id. sql_insert_track auid now new_id v)"

definition from_track_updates_insert :: "uuid \<Rightarrow> track_update_insert \<Rightarrow> world \<Rightarrow> string option reply \<times> world" where
  "from_track_updates_insert auid v =
     write_request (InsertTrackUpdate v) (\<lambda>now new_id. sql_insert_track_update auid now new_id v)"

definition from_tracks_update :: "uuid \<Rightarrow> uuid \<Rightarrow> track_patch \<Rightarrow> world \<Rightarrow> string option reply \<times> world" where
  "from_tracks_update auid tid p =
     write_request (UpdateTracks tid p) (\<lambda>now new_id. sql_update_tracks auid now tid p)"

definition from_tracks_select_maybeSingle :: "uuid \<Rightarrow> uuid \<Rightarrow> uuid \<Rightarrow> world \<Rightarrow> track_row option reply \<times> world" where
  "from_tracks_select_maybeSingle auid tid uid =
     read_request (SelectTrack tid uid) (sql_select_track auid tid uid)"

definition from_track_updates_select :: "uuid \<Rightarrow> uuid \<Rightarrow> world \<Rightarrow> track_update_row list option reply \<times> world" where
  "from_track_updates_select auid tid =
     read_request (SelectTrackUpdates tid) (\<lambda>db. Some (sql_select_track_updates auid tid db))"

definition from_tracks_select_status :: "uuid \<Rightarrow> uuid \<Rightarrow> world \<Rightarrow> string list option reply \<times> world" where
  "from_tracks_select_status auid uid =
     read_request (SelectStatus uid) (\<lambda>db. Some (sql_select_status auid uid db))"

section \<open>TrackDetail\<close>

record update_form =
  uf_status :: string
  uf_message :: string
  uf_location :: string

record edit_form =
  ef_title :: string
  ef_description :: string
  ef_status :: string
  ef_priority :: string

record track_detail =
  track :: "track_row option"
  updates :: "track_update_row list"
  td_loading :: bool
  showUpdateForm :: bool
  updateForm :: update_form
  isEditing :: bool
  editForm :: edit_form

text \<open>
  \<^verbatim>\<open>loadTrackDetails\<close>. The function closes over the \<^verbatim>\<open>updateForm\<close> of the render that
  created it, which is the argument \<open>uf\<close>.
\<close>

definition loadTrackDetails ::
  "uuid option \<Rightarrow> uuid \<Rightarrow> update_form \<Rightarrow> track_detail \<Rightarrow> world \<Rightarrow> track_detail \<times> world" where
  "loadTrackDetails user trackId uf st w =
     (case user of
        None \<Rightarrow> (st, w)
      | Some uid \<Rightarrow>
          (let st1 = st\<lparr>td_loading := True\<rparr> in
           case from_tracks_select_maybeSingle uid trackId uid w of
             (Threw, w1) \<Rightarrow> (st1, w1)
           | (Reply trackData, w1) \<Rightarrow>
               (case from_track_updates_select uid trackId w1 of
                  (Threw, w2) \<Rightarrow> (st1, w2)
                | (Reply updatesData, w2) \<Rightarrow>
                    (let st2 = (case trackData of
                                  None \<Rightarrow> st1
                                | Some td \<Rightarrow>
                                    st1\<lparr>track := Some td,
                                        editForm := \<lparr>ef_title = title td, ef_description = description td,
                                                      ef_status = status td, ef_priority = priority td\<rparr>,
                                        updateForm := uf\<lparr>uf_status := status td\<rparr>\<rparr>);
                         st3 = (case updatesData of
                                  None \<Rightarrow> st2
                                | Some us \<Rightarrow> st2\<lparr>updates := us\<rparr>)
                     in (st3\<lparr>td_loading := False\<rparr>, w2)))))"

text \<open>The detail view shows \<^verbatim>\<open>track.status\<close> of the component's state as the status of the track.\<close>

definition presented_status :: "track_detail \<Rightarrow> string option" where
  "presented_status st = map_option status (track st)"

text \<open>
  The objects the two handlers send: the new ledger entry
  \<^verbatim>\<open>{ track_id, status, message, location, user_id }\<close>, the patch \<^verbatim>\<open>{ status }\<close> that
  follows it, and the patch \<^verbatim>\<open>{ title, description, status, priority }\<close> of an edit.
\<close>

definition update_entry :: "uuid \<Rightarrow> update_form \<Rightarrow> uuid \<Rightarrow> track_update_insert" where
  "update_entry trackId uf uid =
     \<lparr>ui_track_id = trackId, ui_status = uf_status uf, ui_message = uf_message uf,
      ui_location = uf_location uf, ui_user_id = uid\<rparr>"

definition status_patch :: "string \<Rightarrow> track_patch" where
  "status_patch s =
     \<lparr>p_title = None, p_description = None, p_status = Some s, p_priority = None,
      p_tracking_number = None\<rparr>"

definition fields_patch :: "edit_form \<Rightarrow> track_patch" where
  "fields_patch ef =
     \<lparr>p_title = Some (ef_title ef), p_description = Some (ef_description ef),
      p_status = Some (ef_status ef), p_priority = Some (ef_priority ef),
      p_tracking_number = None\<rparr>"

definition handleAddUpdate :: "uuid option \<Rightarrow> uuid \<Rightarrow> track_detail \<Rightarrow> world \<Rightarrow> track_detail \<times> world" where
  "handleAddUpdate user trackId st w =
     (case user of
        None \<Rightarrow> (st, w)
      | Some uid \<Rightarrow>
          if track st = None then (st, w)
          else
            (case from_track_updates_insert uid (update_entry trackId (updateForm st) uid) w of
               (Threw, w1) \<Rightarrow> (st, w1)
             | (Reply (Some err), w1) \<Rightarrow> (st, w1)
             | (Reply None, w1) \<Rightarrow>
                 (case from_tracks_update uid trackId (status_patch (uf_status (updateForm st))) w1 of
                    (Threw, w2) \<Rightarrow> (st, w2)
                  | (Reply _, w2) \<Rightarrow>
                      loadTrackDetails user trackId (updateForm st)
                        (st\<lparr>updateForm := \<lparr>uf_status = uf_status (updateForm st),
                                            uf_message = [], uf_location = []\<rparr>,
                            showUpdateForm := False\<rparr>) w2)))"

definition handleUpdateTrack :: "uuid option \<Rightarrow> uuid \<Rightarrow> track_detail \<Rightarrow> world \<Rightarrow> track_detail \<times> world" where
  "handleUpdateTrack user trackId st w =
     (case user of
        None \<Rightarrow> (st, w)
      | Some uid \<Rightarrow>
          (case from_tracks_update uid trackId (fields_patch (editForm st)) w of
             (Threw, w1) \<Rightarrow> (st, w1)
           | (Reply (Some err), w1) \<Rightarrow> (st, w1)
           | (Reply None, w1) \<Rightarrow>
               loadTrackDetails user trackId (updateForm st) (st\<lparr>isEditing := False\<rparr>) w1))"

text \<open>The status the store holds for the track with a given id.\<close>

definition track_status :: "database \<Rightarrow> uuid \<Rightarrow> string option" where
  "track_status db tid = map_option status (find (\<lambda>t. t_id t = tid) (tracks_table db))"

text \<open>
  The two actions a user takes on an existing track, each with the signed-in user, the
  track shown and the state of the component at the time of the click, and their effect
  on the world when executed one after the other.
\<close>

datatype action =
    AppendUpdate "uuid option" uuid track_detail
  | EditFields "uuid option" uuid track_detail

fun perform :: "action \<Rightarrow> world \<Rightarrow> world" where
  "perform (AppendUpdate user trackId st) w = snd (handleAddUpdate user trackId st w)"
| "perform (EditFields user trackId st) w = snd (handleUpdateTrack user trackId st w)"

fun perform_all :: "action list \<Rightarrow> world \<Rightarrow> world" where
  "perform_all [] w = w"
| "perform_all (a # as) w = perform_all as (perform a w)"

section \<open>Dashboard: the aggregate counts\<close>

record Stats =
  total :: nat
  pending :: nat
  inProgress :: nat
  completed :: nat

definition loadStats :: "uuid option \<Rightarrow> Stats \<Rightarrow> world \<Rightarrow> Stats \<times> world" where
  "loadStats user stats w =
     (case user of
        None \<Rightarrow> (stats, w)
      | Some uid \<Rightarrow>
          (case from_tracks_select_status uid uid w of
             (Threw, w1) \<Rightarrow> (stats, w1)
           | (Reply None, w1) \<Rightarrow> (stats, w1)
           | (Reply (Some tracks), w1) \<Rightarrow>
               (\<lparr>total = length tracks,
                 pending = length (filter (\<lambda>t. t = ''pending'') tracks),
                 inProgress = length (filter (\<lambda>t. t = ''in_progress'') tracks),
                 completed = length (filter (\<lambda>t. t = ''completed'') tracks)\<rparr>, w1)))"

section \<open>CreateTrack\<close>

record create_form =
  cf_title :: string
  cf_description :: string
  cf_status :: string
  cf_priority :: string

text \<open>\<open>onBack_calls\<close> counts the calls of the \<^verbatim>\<open>onBack\<close> property, which returns to the list.\<close>

record create_track =
  ct_loading :: bool
  ct_error :: "string option"
  form :: create_form
  onBack_calls :: nat

definition handleSubmit :: "uuid option \<Rightarrow> int \<Rightarrow> string \<Rightarrow> create_track \<Rightarrow> world \<Rightarrow> create_track \<times> world" where
  "handleSubmit user now rnd36 st w =
     (case user of
        None \<Rightarrow> (st, w)
      | Some uid \<Rightarrow>
          (let st1 = st\<lparr>ct_error := None, ct_loading := True\<rparr>;
               trackingNumber = generateTrackingNumber now rnd36
           in case from_tracks_insert uid
                     \<lparr>ti_title = cf_title (form st), ti_description = cf_description (form st),
                      ti_status = cf_status (form st), ti_priority = cf_priority (form st),
                      ti_tracking_number = trackingNumber, ti_user_id = uid\<rparr> w of
                (Threw, w1) \<Rightarrow>
                  (st1\<lparr>ct_error := Some ''An unexpected error occurred'', ct_loading := False\<rparr>, w1)
              | (Reply (Some insertError), w1) \<Rightarrow>
                  (st1\<lparr>ct_error := Some insertError, ct_loading := False\<rparr>, w1)
              | (Reply None, w1) \<Rightarrow>
                  (st1\<lparr>onBack_calls := Suc (onBack_calls st1), ct_loading := False\<rparr>, w1)))"

section \<open>TrackList: filtering and sorting\<close>

text \<open>
  The component keeps references to arrays, and \<^verbatim>\<open>sort\<close> works in place, so arrays live
  in a heap: a reference is an index into the list of all arrays allocated so far.
  \<^verbatim>\<open>[...a]\<close> and \<^verbatim>\<open>a.filter(p)\<close> allocate a new array; \<^verbatim>\<open>a.sort(cmp)\<close> overwrites \<open>a\<close>.
\<close>

type_synonym ref = nat
type_synonym heap = "track_row list list"

definition new_array :: "track_row list \<Rightarrow> heap \<Rightarrow> ref \<times> heap" where
  "new_array xs h = (length h, h @ [xs])"

definition spread :: "ref \<Rightarrow> heap \<Rightarrow> ref \<times> heap" where
  "spread a h = new_array (h ! a) h"

definition array_filter :: "(track_row \<Rightarrow> bool) \<Rightarrow> ref \<Rightarrow> heap \<Rightarrow> ref \<times> heap" where
  "array_filter p a h = new_array (filter p (h ! a)) h"

text \<open>
  \<^verbatim>\<open>sort\<close> is stable: \<open>x\<close> goes before \<open>y\<close> when the comparator is negative, after it
  when positive, and the two keep their order when it is zero. Insertion from the right
  end computes that order.
\<close>

fun insert_by :: "('a \<Rightarrow> 'a \<Rightarrow> int) \<Rightarrow> 'a \<Rightarrow> 'a list \<Rightarrow> 'a list" where
  "insert_by cmp x [] = [x]"
| "insert_by cmp x (y # ys) = (if cmp x y \<le> 0 then x # y # ys else y # insert_by cmp x ys)"

definition sort_by :: "('a \<Rightarrow> 'a \<Rightarrow> int) \<Rightarrow> 'a list \<Rightarrow> 'a list" where
  "sort_by cmp xs = foldr (insert_by cmp) xs []"

definition array_sort :: "(track_row \<Rightarrow> track_row \<Rightarrow> int) \<Rightarrow> ref \<Rightarrow> heap \<Rightarrow> heap" where
  "array_sort cmp a h = h[a := sort_by cmp (h ! a)]"

datatype sort_key = ByDate | ByTitle

record track_list =
  tracks :: ref
  filteredTracks :: ref
  searchQuery :: string
  statusFilter :: string
  priorityFilter :: string
  sortBy :: sort_key

text \<open>
  \<^verbatim>\<open>filterAndSortTracks\<close>. The collation \<^verbatim>\<open>localeCompare\<close> belongs to the runtime and is
  a parameter; \<^verbatim>\<open>new Date(t.updated_at).getTime()\<close> is the timestamp \<open>updated_at t\<close>.
\<close>

definition filterAndSortTracks :: "(string \<Rightarrow> string \<Rightarrow> int) \<Rightarrow> track_list \<Rightarrow> heap \<Rightarrow> track_list \<times> heap" where
  "filterAndSortTracks localeCompare st h =
     (let (filtered, h1) = spread (tracks st) h;
          (filtered, h2) =
            (if searchQuery st \<noteq> [] then
               (let query = toLowerCase (searchQuery st) in
                array_filter
                  (\<lambda>track. includes_str (toLowerCase (title track)) query \<or>
                            includes_str (toLowerCase (tracking_number track)) query \<or>
                            includes_str (toLowerCase (description track)) query)
                  filtered h1)
             else (filtered, h1));
          (filtered, h3) =
            (if statusFilter st \<noteq> ''all''
             then array_filter (\<lambda>track. status track = statusFilter st) filtered h2
             else (filtered, h2));
          (filtered, h4) =
            (if priorityFilter st \<noteq> ''all''
             then array_filter (\<lambda>track. priority track = priorityFilter st) filtered h3
             else (filtered, h3));
          h5 = array_sort
                 (\<lambda>a b. if sortBy st = ByDate
                         then int (updated_at b) - int (updated_at a)
                         else localeCompare (title a) (title b))
                 filtered h4
      in (st\<lparr>filteredTracks := filtered\<rparr>, h5))"

section \<open>Sample data\<close>

text \<open>A user with one pending track, and the component states from which the examples start.\<close>

definition sample_track :: track_row where
  "sample_track =
     \<lparr>t_id = 1, title = ''Ship widget'', description = ''two boxes'', category_id = None,
      status = ''pending'', priority = ''medium'', tracking_number = ''TRK-LOYW3V28-4FZY'',
      user_id = 7, created_at = 10, updated_at = 10\<rparr>"

definition sample_world :: world where
  "sample_world =
     \<lparr>store = \<lparr>tracks_table = [sample_track], track_updates_table = []\<rparr>,
      clock = 30, next_id = 5, network = [], wire = []\<rparr>"

definition sample_detail :: track_detail where
  "sample_detail =
     \<lparr>track = Some sample_track, updates = [], td_loading = False, showUpdateForm = True,
      updateForm = \<lparr>uf_status = ''in_progress'', uf_message = ''left warehouse'', uf_location = []\<rparr>,
      isEditing = True,
      editForm = \<lparr>ef_title = ''Ship widgets'', ef_description = ''two boxes'',
                  ef_status = ''completed'', ef_priority = ''high''\<rparr>\<rparr>"

text \<open>The same track after its ledger received a \<open>completed\<close> entry that the track row missed.\<close>

definition lagging_world :: world where
  "lagging_world =
     sample_world\<lparr>store :=
       \<lparr>tracks_table = [sample_track],
        track_updates_table =
          [\<lparr>u_id = 2, u_track_id = 1, u_status = ''completed'', message = ''delivered'',
            location = ''dock'', u_user_id = 7, u_created_at = 20\<rparr>]\<rparr>\<rparr>"

text \<open>Three tracks of one owner: two cancelled, one pending.\<close>

definition stats_world :: world where
  "stats_world =
     sample_world\<lparr>store :=
       \<lparr>tracks_table =
          [sample_track\<lparr>t_id := 3, status := ''cancelled'', tracking_number := ''TRK-A-0001''\<rparr>,
           sample_track\<lparr>t_id := 4, status := ''cancelled'', tracking_number := ''TRK-A-0002''\<rparr>,
           sample_track],
        track_updates_table = []\<rparr>\<rparr>"

definition empty_stats :: Stats where
  "empty_stats = \<lparr>total = 0, pending = 0, inProgress = 0, completed = 0\<rparr>"

text \<open>A creation form whose title was left empty.\<close>

definition untitled_form :: create_track where
  "untitled_form =
     \<lparr>ct_loading = False, ct_error = None,
      form = \<lparr>cf_title = [], cf_description = ''no title yet'', cf_status = ''pending'',
               cf_priority = ''medium''\<rparr>,
      onBack_calls = 0\<rparr>"

definition titled_form :: create_track where
  "titled_form = untitled_form\<lparr>form := (form untitled_form)\<lparr>cf_title := ''Ship widget''\<rparr>\<rparr>"

text \<open>
  Two tracks in one array of the heap: the first is pending and has \<open>a\<close> for a title,
  the second is completed. The list is searched for \<open>a\<close> with the status filter set to
  \<open>completed\<close>; \<open>by_length\<close> is a collation that compares titles by their length.
\<close>

definition track_a :: track_row where
  "track_a = sample_track\<lparr>title := ''a'', updated_at := 11\<rparr>"

definition track_b :: track_row where
  "track_b =
     sample_track\<lparr>t_id := 2, title := ''Bb'', status := ''completed'', updated_at := 12,
                  tracking_number := ''TRK-A-0003''\<rparr>"

definition sample_heap :: heap where
  "sample_heap = [[track_a, track_b], []]"

definition sample_list :: track_list where
  "sample_list =
     \<lparr>tracks = 0, filteredTracks = 1, searchQuery = ''a'', statusFilter = ''completed'',
      priorityFilter = ''all'', sortBy = ByDate\<rparr>"

definition unfiltered_list :: track_list where
  "unfiltered_list = sample_list\<lparr>searchQuery := [], statusFilter := ''all''\<rparr>"

definition by_length :: "string \<Rightarrow> string \<Rightarrow> int" where
  "by_length a b = int (length a) - int (length b)"

lemmas string_defs =
  toUpperCase_def toLowerCase_def upper_char_def lower_char_def upper_letters_def
  lower_letters_def substring_def toString36_def nat_toString36.simps digit36_def
  includes_str_def sublist_code generateTrackingNumber_def

lemmas store_defs =
  owns_track_def sql_insert_track_def sql_insert_track_update_def apply_patch_def
  sql_update_tracks_def sql_select_track_def sql_select_track_updates_def sql_select_status_def
  send_def write_request_def read_request_def from_tracks_insert_def
  from_track_updates_insert_def from_tracks_update_def from_tracks_select_maybeSingle_def
  from_track_updates_select_def from_tracks_select_status_def track_status_def

lemmas heap_defs =
  new_array_def spread_def array_filter_def sort_by_def array_sort_def filterAndSortTracks_def

lemmas component_defs =
  loadTrackDetails_def presented_status_def update_entry_def status_patch_def fields_patch_def
  handleAddUpdate_def handleUpdateTrack_def loadStats_def handleSubmit_def

lemmas sample_defs =
  sample_track_def sample_world_def sample_detail_def lagging_world_def stats_world_def
  empty_stats_def untitled_form_def titled_form_def track_a_def track_b_def sample_heap_def
  sample_list_def unfiltered_list_def by_length_def

section \<open>Requests and what they leave behind\<close>

lemma sql_insert_track_Inr:
  "sql_insert_track auid now new_id v db = Inr db' \<Longrightarrow>
     tracks_table db' = tracks_table db @
       [\<lparr>t_id = new_id, title = ti_title v, description = ti_description v,
         category_id = None, status = ti_status v, priority = ti_priority v,
         tracking_number = ti_tracking_number v, user_id = ti_user_id v,
         created_at = now, updated_at = now\<rparr>]"
  by (auto simp: sql_insert_track_def split: if_splits)

lemma sql_insert_track_update_Inr:
  "sql_insert_track_update auid now new_id v db = Inr db' \<Longrightarrow>
     ui_user_id v = auid \<and> owns_track auid db (ui_track_id v) \<and>
     tracks_table db' = tracks_table db \<and>
     track_updates_table db' = track_updates_table db @
       [\<lparr>u_id = new_id, u_track_id = ui_track_id v, u_status = ui_status v,
         message = ui_message v, location = ui_location v,
         u_user_id = ui_user_id v, u_created_at = now\<rparr>]"
  by (auto simp: sql_insert_track_update_def split: if_splits)

lemma sql_update_tracks_Inr:
  "sql_update_tracks auid now tid p db = Inr db' \<Longrightarrow>
     track_updates_table db' = track_updates_table db \<and>
     tracks_table db' =
       map (\<lambda>t. if t_id t = tid \<and> user_id t = auid then apply_patch now p t else t) (tracks_table db)"
  by (auto simp: sql_update_tracks_def Let_def split: if_splits)

lemma send_world:
  "snd (send rq w) = w\<lparr>network := tl (network w), wire := wire w @ [rq], clock := Suc (clock w)\<rparr>"
  by (simp add: send_def)

lemma send_store: "send rq w = (f, w') \<Longrightarrow> store w' = store w"
  and send_wire: "send rq w = (f, w') \<Longrightarrow> wire w' = wire w @ [rq]"
  by (auto simp: send_def)

lemma send_healthy:
  assumes "set (take (Suc n) (network w)) \<subseteq> {Healthy}" and "send rq w = (f, w')"
  shows "f = Healthy" and "set (take n (network w')) \<subseteq> {Healthy}" and "store w' = store w"
  using assms by (cases "network w"; auto simp: send_def)+

lemma read_request_store: "read_request rq q w = (r, w') \<Longrightarrow> store w' = store w"
  and read_request_wire: "read_request rq q w = (r, w') \<Longrightarrow> wire w' = wire w @ [rq]"
  by (auto simp: read_request_def split: prod.splits fault.splits dest: send_store send_wire)

lemma read_request_healthy:
  assumes "set (take (Suc n) (network w)) \<subseteq> {Healthy}" and "read_request rq q w = (r, w')"
  shows "r = Reply (q (store w))" and "set (take n (network w')) \<subseteq> {Healthy}"
proof -
  obtain f w0 where s: "send rq w = (f, w0)"
    by (cases "send rq w")
  note h = send_healthy [OF assms(1) s]
  from assms(2) s h(1,3) show "r = Reply (q (store w))"
    by (simp add: read_request_def)
  from assms(2) s h(1,2) show "set (take n (network w')) \<subseteq> {Healthy}"
    by (simp add: read_request_def)
qed

lemma write_request_wire: "write_request rq stmt w = (r, w') \<Longrightarrow> wire w' = wire w @ [rq]"
  by (auto simp: write_request_def split: prod.splits fault.splits sum.splits dest: send_wire)

lemma write_request_failed:
  "write_request rq stmt w = (r, w') \<Longrightarrow> r \<noteq> Reply None \<Longrightarrow> store w' = store w"
  by (auto simp: write_request_def split: prod.splits fault.splits sum.splits dest: send_store)

lemma write_request_store:
  "write_request rq stmt w = (r, w') \<Longrightarrow>
     store w' = store w \<or> (\<exists>now new_id. stmt now new_id (store w) = Inr (store w'))"
  by (auto simp: write_request_def split: prod.splits fault.splits sum.splits dest: send_store)

lemma write_request_done:
  assumes "write_request rq stmt w = (Reply None, w')"
  shows "\<exists>now new_id. stmt now new_id (store w) = Inr (store w')"
proof -
  obtain f w0 where s: "send rq w = (f, w0)"
    by (cases "send rq w")
  have 0: "store w0 = store w"
    using s by (rule send_store)
  show ?thesis
  proof (cases "stmt (clock w0) (next_id w0) (store w0)")
    case (Inl m)
    with assms s show ?thesis
      by (simp add: write_request_def split: fault.splits)
  next
    case (Inr db')
    with assms s have "store w' = db'"
      by (auto simp: write_request_def split: fault.splits)
    with Inr 0 show ?thesis by auto
  qed
qed

lemma loadTrackDetails_store:
  assumes "loadTrackDetails user trackId uf st w = (st', w')"
  shows "store w' = store w"
proof (cases user)
  case None
  with assms show ?thesis by (simp add: loadTrackDetails_def)
next
  case (Some uid)
  obtain r1 w1 where 1: "from_tracks_select_maybeSingle uid trackId uid w = (r1, w1)"
    by (cases "from_tracks_select_maybeSingle uid trackId uid w")
  obtain r2 w2 where 2: "from_track_updates_select uid trackId w1 = (r2, w2)"
    by (cases "from_track_updates_select uid trackId w1")
  have s1: "store w1 = store w"
    using 1 by (auto simp: from_tracks_select_maybeSingle_def dest: read_request_store)
  have s2: "store w2 = store w1"
    using 2 by (auto simp: from_track_updates_select_def dest: read_request_store)
  show ?thesis
    using assms Some 1 2 s1 s2
    by (auto simp: loadTrackDetails_def Let_def split: reply.splits option.splits)
qed

lemma loadTrackDetails_wire:
  assumes "loadTrackDetails user trackId uf st w = (st', w')"
  shows "\<exists>rest. wire w' = wire w @ rest \<and>
           set rest \<subseteq> (case user of None \<Rightarrow> {} | Some uid \<Rightarrow> {SelectTrack trackId uid, SelectTrackUpdates trackId})"
proof (cases user)
  case None
  with assms show ?thesis by (simp add: loadTrackDetails_def)
next
  case (Some uid)
  obtain r1 w1 where 1: "from_tracks_select_maybeSingle uid trackId uid w = (r1, w1)"
    by (cases "from_tracks_select_maybeSingle uid trackId uid w")
  obtain r2 w2 where 2: "from_track_updates_select uid trackId w1 = (r2, w2)"
    by (cases "from_track_updates_select uid trackId w1")
  have s1: "wire w1 = wire w @ [SelectTrack trackId uid]"
    using 1 by (auto simp: from_tracks_select_maybeSingle_def dest: read_request_wire)
  have s2: "wire w2 = wire w1 @ [SelectTrackUpdates trackId]"
    using 2 by (auto simp: from_track_updates_select_def dest: read_request_wire)
  show ?thesis
    using assms Some 1 2 s1 s2
    by (auto simp: loadTrackDetails_def Let_def split: reply.splits option.splits)
qed

lemma from_tracks_update_updates:
  assumes "from_tracks_update auid tid p w = (r, w')"
  shows "track_updates_table (store w') = track_updates_table (store w)"
  using write_request_store [OF assms [unfolded from_tracks_update_def]]
  by (auto dest: sql_update_tracks_Inr)

lemma insert_update_accepted:
  assumes "from_track_updates_insert uid v w = (Reply None, w1)"
  shows "owns_track uid (store w) (ui_track_id v)"
    and "tracks_table (store w1) = tracks_table (store w)"
proof -
  obtain now new_id where eq: "sql_insert_track_update uid now new_id v (store w) = Inr (store w1)"
    using write_request_done [OF assms [unfolded from_track_updates_insert_def]] by blast
  show "owns_track uid (store w) (ui_track_id v)"
    and "tracks_table (store w1) = tracks_table (store w)"
    using sql_insert_track_update_Inr [OF eq] by simp_all
qed

lemma insert_update_keeps_tracks:
  assumes "from_track_updates_insert auid v w = (r, w')"
  shows "tracks_table (store w') = tracks_table (store w)"
  using write_request_store [OF assms [unfolded from_track_updates_insert_def]]
  by (auto dest: sql_insert_track_update_Inr)

lemma status_write_done:
  assumes "from_tracks_update uid tid p w = (Reply None, w')"
  shows "\<exists>now. tracks_table (store w') =
           map (\<lambda>t. if t_id t = tid \<and> user_id t = uid then apply_patch now p t else t)
               (tracks_table (store w))"
proof -
  obtain now new_id where eq: "sql_update_tracks uid now tid p (store w) = Inr (store w')"
    using write_request_done [OF assms [unfolded from_tracks_update_def]] by blast
  show ?thesis
    using sql_update_tracks_Inr [OF eq] by blast
qed

lemma update_keeps_numbers:
  assumes "from_tracks_update auid tid p w = (r, w')" and "p_tracking_number p = None"
  shows "map (\<lambda>t. (t_id t, tracking_number t)) (tracks_table (store w')) =
         map (\<lambda>t. (t_id t, tracking_number t)) (tracks_table (store w))"
proof -
  have "store w' = store w \<or> (\<exists>now. sql_update_tracks auid now tid p (store w) = Inr (store w'))"
    using write_request_store [OF assms(1) [unfolded from_tracks_update_def]] by blast
  then show ?thesis
  proof
    assume "store w' = store w"
    then show ?thesis by simp
  next
    assume "\<exists>now. sql_update_tracks auid now tid p (store w) = Inr (store w')"
    then obtain now where 2: "sql_update_tracks auid now tid p (store w) = Inr (store w')"
      by blast
    have "tracks_table (store w') =
        map (\<lambda>t. if t_id t = tid \<and> user_id t = auid then apply_patch now p t else t) (tracks_table (store w))"
      using sql_update_tracks_Inr [OF 2] by simp
    then show ?thesis
      using assms(2) by (simp add: apply_patch_def o_def if_distrib cong: if_cong)
  qed
qed

lemma find_by_id_map:
  assumes "\<And>t. t_id (f t) = t_id t"
  shows "find (\<lambda>t. t_id t = tid) (map f ts) = map_option f (find (\<lambda>t. t_id t = tid) ts)"
  using assms by (induction ts) auto

lemma find_by_id_owned:
  assumes "distinct (map t_id ts)" and "list_ex (\<lambda>t. t_id t = tid \<and> user_id t = uid) ts"
  shows "\<exists>t. find (\<lambda>t. t_id t = tid) ts = Some t \<and> t_id t = tid \<and> user_id t = uid"
  using assms by (induction ts) (auto simp: list_ex_iff)

section \<open>The tracking number\<close>

lemma generateTrackingNumber_parts:
  "generateTrackingNumber now rnd36 =
     ''TRK-'' @ toUpperCase (toString36 now) @ ''-'' @ toUpperCase (take 4 (drop 2 rnd36))"
  by (simp add: generateTrackingNumber_def substring_def Let_def min_def max_def)

lemma random_suffix_length:
  "length (toUpperCase (substring rnd36 2 6)) = min 4 (length rnd36 - 2)"
  by (auto simp: toUpperCase_def substring_def Let_def min_def max_def)

text \<open>
  Claim C5 fails on the code. When the random number is one half the runtime prints it
  as \<^verbatim>\<open>0.i\<close>, a single fraction digit, and the suffix of the tracking number is the one
  character \<open>I\<close> instead of four.
\<close>

theorem short_random_suffix:
  "generateTrackingNumber 1700000000000 ''0.i'' = ''TRK-LOYW3V28-I''"
  by (simp add: string_defs)

section \<open>Creating a track\<close>




section \<open>Appending an update\<close>

text \<open>
  Claim C1. When the append-update operation completes successfully, that is, when the
  insert of the ledger entry and the status write that follows it both come back
  without an error, the status the store holds for the track is the status that was
  appended. Track ids are a primary key.
\<close>

theorem append_update_sets_status:
  assumes pk: "distinct (map t_id (tracks_table (store w)))"
    and shown: "track st \<noteq> None"
    and ins: "from_track_updates_insert uid (update_entry trackId (updateForm st) uid) w = (Reply None, w1)"
    and upd: "from_tracks_update uid trackId (status_patch (uf_status (updateForm st))) w1 = (Reply None, w2)"
  shows "track_status (store (snd (handleAddUpdate (Some uid) trackId st w))) trackId =
           Some (uf_status (updateForm st))"
proof -
  let ?S = "uf_status (updateForm st)"
  let ?f = "\<lambda>now t. if t_id t = trackId \<and> user_id t = uid then apply_patch now (status_patch ?S) t else t"
  have own: "owns_track uid (store w) trackId" and same: "tracks_table (store w1) = tracks_table (store w)"
    using insert_update_accepted [OF ins] by (simp_all add: update_entry_def)
  obtain now where rows: "tracks_table (store w2) = map (?f now) (tracks_table (store w))"
    using status_write_done [OF upd] same by auto
  obtain t where t: "find (\<lambda>t. t_id t = trackId) (tracks_table (store w)) = Some t"
      "t_id t = trackId" "user_id t = uid"
    using find_by_id_owned [OF pk] own by (auto simp: owns_track_def)
  have "find (\<lambda>t. t_id t = trackId) (tracks_table (store w2)) = Some (?f now t)"
    unfolding rows using t(1) by (subst find_by_id_map) (simp_all add: apply_patch_def)
  then have w2: "track_status (store w2) trackId = Some ?S"
    using t(2,3) by (simp add: track_status_def apply_patch_def status_patch_def)
  obtain st' w3 where load: "loadTrackDetails (Some uid) trackId (updateForm st)
      (st\<lparr>updateForm := \<lparr>uf_status = ?S, uf_message = [], uf_location = []\<rparr>, showUpdateForm := False\<rparr>) w2 = (st', w3)"
    by (cases "loadTrackDetails (Some uid) trackId (updateForm st)
      (st\<lparr>updateForm := \<lparr>uf_status = ?S, uf_message = [], uf_location = []\<rparr>, showUpdateForm := False\<rparr>) w2")
  have "store w3 = store w2"
    using load by (rule loadTrackDetails_store)
  then show ?thesis
    using shown ins upd load w2 by (auto simp: handleAddUpdate_def)
qed

theorem append_update_sets_status_witness:
  "distinct (map t_id (tracks_table (store sample_world))) \<and>
   track sample_detail \<noteq> None \<and>
   fst (from_track_updates_insert 7 (update_entry 1 (updateForm sample_detail) 7) sample_world) = Reply None \<and>
   track_status (store sample_world) 1 = Some ''pending'' \<and>
   track_status (store (snd (handleAddUpdate (Some 7) 1 sample_detail sample_world))) 1 =
     Some ''in_progress''"
proof -
  let ?i = "from_track_updates_insert 7 (update_entry 1 (updateForm sample_detail) 7) sample_world"
  let ?u = "from_tracks_update 7 1 (status_patch (uf_status (updateForm sample_detail))) (snd ?i)"
  have pk: "distinct (map t_id (tracks_table (store sample_world)))"
    by (simp add: sample_defs)
  have shown: "track sample_detail \<noteq> None"
    by (simp add: sample_defs)
  have fi: "fst ?i = Reply None"
    by (simp add: store_defs component_defs sample_defs)
  have fu: "fst ?u = Reply None"
    by (simp add: store_defs component_defs sample_defs)
  have i: "?i = (Reply None, snd ?i)"
    using fi by (simp add: prod_eq_iff)
  have u: "?u = (Reply None, snd ?u)"
    using fu by (simp add: prod_eq_iff)
  have before: "track_status (store sample_world) 1 = Some ''pending''"
    by (simp add: store_defs sample_defs)
  have S: "uf_status (updateForm sample_detail) = ''in_progress''"
    by (simp add: sample_defs)
  have "track_status (store (snd (handleAddUpdate (Some 7) 1 sample_detail sample_world))) 1 =
     Some ''in_progress''"
    using append_update_sets_status [OF pk shown i u] S by simp
  with pk shown fi before show ?thesis
    by blast
qed

text \<open>
  Claim C2. The append-update operation issues the insert of the ledger entry first.
  When the insert comes back without an error the status write is the next request,
  followed only by the reads of the reload. When the insert fails, by an error of the
  store, of the network or an exception, it is the only request issued: no status
  write happens, and the tables and the component are as they were.
\<close>

theorem append_update_insert_first:
  assumes shown: "track st \<noteq> None"
  shows "(if fst (from_track_updates_insert uid (update_entry trackId (updateForm st) uid) w) = Reply None
          then \<exists>rest. wire (snd (handleAddUpdate (Some uid) trackId st w)) =
                   wire w @ InsertTrackUpdate (update_entry trackId (updateForm st) uid) #
                     UpdateTracks trackId (status_patch (uf_status (updateForm st))) # rest \<and>
                 set rest \<subseteq> {SelectTrack trackId uid, SelectTrackUpdates trackId}
          else fst (handleAddUpdate (Some uid) trackId st w) = st \<and>
               store (snd (handleAddUpdate (Some uid) trackId st w)) = store w \<and>
               wire (snd (handleAddUpdate (Some uid) trackId st w)) =
                 wire w @ [InsertTrackUpdate (update_entry trackId (updateForm st) uid)])"
proof -
  let ?v = "update_entry trackId (updateForm st) uid"
  let ?p = "status_patch (uf_status (updateForm st))"
  obtain r1 w1 where 1: "from_track_updates_insert uid ?v w = (r1, w1)"
    by (cases "from_track_updates_insert uid ?v w")
  have wire1: "wire w1 = wire w @ [InsertTrackUpdate ?v]"
    using 1 by (auto simp: from_track_updates_insert_def dest: write_request_wire)
  show ?thesis
  proof (cases "r1 = Reply None")
    case False
    have "store w1 = store w"
      using 1 False by (auto simp: from_track_updates_insert_def dest: write_request_failed)
    moreover have "handleAddUpdate (Some uid) trackId st w = (st, w1)"
      using shown 1 False by (auto simp: handleAddUpdate_def split: reply.splits option.splits)
    ultimately show ?thesis
      using 1 False wire1 by simp
  next
    case True
    obtain r2 w2 where 2: "from_tracks_update uid trackId ?p w1 = (r2, w2)"
      by (cases "from_tracks_update uid trackId ?p w1")
    have wire2: "wire w2 = wire w @ [InsertTrackUpdate ?v, UpdateTracks trackId ?p]"
      using 2 wire1 by (auto simp: from_tracks_update_def dest: write_request_wire)
    let ?st = "st\<lparr>updateForm := \<lparr>uf_status = uf_status (updateForm st), uf_message = [], uf_location = []\<rparr>,
                   showUpdateForm := False\<rparr>"
    obtain st3 w3 where 3: "loadTrackDetails (Some uid) trackId (updateForm st) ?st w2 = (st3, w3)"
      by (cases "loadTrackDetails (Some uid) trackId (updateForm st) ?st w2")
    obtain rest where rest: "wire w3 = wire w2 @ rest"
        "set rest \<subseteq> {SelectTrack trackId uid, SelectTrackUpdates trackId}"
      using loadTrackDetails_wire [OF 3] by auto
    have "\<exists>rest. wire (snd (handleAddUpdate (Some uid) trackId st w)) =
             wire w @ InsertTrackUpdate ?v # UpdateTracks trackId ?p # rest \<and>
             set rest \<subseteq> {SelectTrack trackId uid, SelectTrackUpdates trackId}"
    proof (cases r2)
      case Threw
      then have "snd (handleAddUpdate (Some uid) trackId st w) = w2"
        using shown 1 True 2 by (auto simp: handleAddUpdate_def)
      with wire2 show ?thesis by simp
    next
      case (Reply e)
      then have "snd (handleAddUpdate (Some uid) trackId st w) = w3"
        using shown 1 True 2 3 by (auto simp: handleAddUpdate_def)
      with wire2 rest show ?thesis by simp
    qed
    with 1 True show ?thesis by simp
  qed
qed

theorem append_update_insert_first_witness:
  "track sample_detail \<noteq> None \<and>
   fst (from_track_updates_insert 7 (update_entry 1 (updateForm sample_detail) 7)
          (sample_world\<lparr>network := [Refused ''Failed to fetch'']\<rparr>)) = Reply (Some ''Failed to fetch'') \<and>
   handleAddUpdate (Some 7) 1 sample_detail (sample_world\<lparr>network := [Refused ''Failed to fetch'']\<rparr>) =
     (sample_detail,
      sample_world\<lparr>network := [], clock := 31,
        wire := [InsertTrackUpdate (update_entry 1 (updateForm sample_detail) 7)]\<rparr>)"
  using append_update_insert_first [of sample_detail 7 1 "sample_world\<lparr>network := [Refused ''Failed to fetch'']\<rparr>"]
  by (simp add: store_defs component_defs sample_defs)

text \<open>The requests of a successful append, in the order they are issued.\<close>

lemma append_update_requests_example:
  "wire (snd (handleAddUpdate (Some 7) 1 sample_detail sample_world)) =
     [InsertTrackUpdate (update_entry 1 (updateForm sample_detail) 7),
      UpdateTracks 1 (status_patch ''in_progress''), SelectTrack 1 7, SelectTrackUpdates 1]"
  by (simp add: store_defs component_defs sample_defs)

section \<open>Reading a track\<close>

text \<open>
  Claim C3, as amended. The read path presents the status field of the track row,
  also when the newest ledger entry carries another status: when both queries of
  \<open>loadTrackDetails\<close> are answered and the track query finds the row, the status shown
  is the row's, and the ledger entries are loaded beside it, newest first, without
  being consulted for the status.
\<close>

theorem load_presents_row_status:
  assumes healthy: "set (take 2 (network w)) \<subseteq> {Healthy}"
    and row: "sql_select_track uid trackId uid (store w) = Some row"
  shows "presented_status (fst (loadTrackDetails (Some uid) trackId uf st w)) = Some (status row) \<and>
         updates (fst (loadTrackDetails (Some uid) trackId uf st w)) =
           sql_select_track_updates uid trackId (store w)"
proof -
  obtain r1 w1 where 1: "from_tracks_select_maybeSingle uid trackId uid w = (r1, w1)"
    by (cases "from_tracks_select_maybeSingle uid trackId uid w")
  obtain r2 w2 where 2: "from_track_updates_select uid trackId w1 = (r2, w2)"
    by (cases "from_track_updates_select uid trackId w1")
  have two: "take 2 (network w) = take (Suc 1) (network w)"
    by (simp add: numeral_2_eq_2)
  have r1: "r1 = Reply (Some row)" and h1: "set (take 1 (network w1)) \<subseteq> {Healthy}"
    using read_request_healthy [OF healthy [unfolded two] 1 [unfolded from_tracks_select_maybeSingle_def]] row
    by simp_all
  have s1: "store w1 = store w"
    using 1 by (auto simp: from_tracks_select_maybeSingle_def dest: read_request_store)
  have r2: "r2 = Reply (Some (sql_select_track_updates uid trackId (store w)))"
    using read_request_healthy(1) [OF _ 2 [unfolded from_track_updates_select_def], of 0] h1 s1
    by simp
  show ?thesis
    using 1 2 r1 r2 by (simp add: loadTrackDetails_def presented_status_def)
qed

theorem load_presents_row_status_witness:
  "set (take 2 (network lagging_world)) \<subseteq> {Healthy} \<and>
   sql_select_track 7 1 7 (store lagging_world) = Some sample_track \<and>
   presented_status (fst (loadTrackDetails (Some 7) 1 (updateForm sample_detail) sample_detail lagging_world)) =
     Some ''pending'' \<and>
   map u_status (updates (fst (loadTrackDetails (Some 7) 1 (updateForm sample_detail) sample_detail lagging_world))) =
     [''completed'']"
  using load_presents_row_status [of lagging_world 7 1 sample_track "updateForm sample_detail" sample_detail]
  by (simp add: store_defs sample_defs)

text \<open>
  Claim C3 as stated fails: the track row says \<open>pending\<close>, the newest ledger entry
  says \<open>completed\<close>, and the read path presents \<open>pending\<close>.
\<close>

theorem read_path_prefers_row_counterexample:
  "track_status (store lagging_world) 1 = Some ''pending'' \<and>
   map u_status (take 1 (sql_select_track_updates 7 1 (store lagging_world))) = [''completed''] \<and>
   presented_status (fst (loadTrackDetails (Some 7) 1 (updateForm sample_detail) sample_detail lagging_world)) \<noteq>
     Some ''completed''"
  by (simp add: store_defs component_defs sample_defs)

section \<open>Editing a track\<close>

text \<open>
  Claim C7. Editing the fields of a track, the status field included, inserts no row
  into the ledger: whoever is signed in, whatever the edit form holds and whatever the
  fate of the requests, the table of update entries after \<open>handleUpdateTrack\<close> is the
  table before it.
\<close>

theorem edit_never_touches_ledger:
  "track_updates_table (store (snd (handleUpdateTrack user trackId st w))) =
   track_updates_table (store w)"
proof (cases user)
  case None
  then show ?thesis by (simp add: handleUpdateTrack_def)
next
  case (Some uid)
  obtain r w1 where 1: "from_tracks_update uid trackId (fields_patch (editForm st)) w = (r, w1)"
    by (cases "from_tracks_update uid trackId (fields_patch (editForm st)) w")
  have 2: "track_updates_table (store w1) = track_updates_table (store w)"
    using 1 by (rule from_tracks_update_updates)
  obtain st' w2 where 3: "loadTrackDetails user trackId (updateForm st) (st\<lparr>isEditing := False\<rparr>) w1 = (st', w2)"
    by (cases "loadTrackDetails user trackId (updateForm st) (st\<lparr>isEditing := False\<rparr>) w1")
  have 4: "store w2 = store w1"
    using 3 by (rule loadTrackDetails_store)
  show ?thesis
    using Some 1 2 3 4 by (simp add: handleUpdateTrack_def split: reply.splits option.splits)
qed

theorem edit_never_touches_ledger_witness:
  "track_updates_table (store (snd (handleUpdateTrack (Some 7) 1 sample_detail lagging_world))) =
     track_updates_table (store lagging_world) \<and>
   track_status (store (snd (handleUpdateTrack (Some 7) 1 sample_detail lagging_world))) 1 = Some ''completed''"
  using edit_never_touches_ledger [of "Some 7" 1 sample_detail lagging_world]
  by (simp add: store_defs component_defs sample_defs)

section \<open>The tracking number over the life of a track\<close>

lemma handleAddUpdate_numbers:
  "map (\<lambda>t. (t_id t, tracking_number t)) (tracks_table (store (snd (handleAddUpdate user trackId st w)))) =
   map (\<lambda>t. (t_id t, tracking_number t)) (tracks_table (store w))"
proof (cases "user = None \<or> track st = None")
  case True
  then show ?thesis by (auto simp: handleAddUpdate_def split: option.splits)
next
  case False
  then obtain uid where uid: "user = Some uid" and shown: "track st \<noteq> None"
    by auto
  let ?v = "update_entry trackId (updateForm st) uid"
  let ?p = "status_patch (uf_status (updateForm st))"
  let ?st = "st\<lparr>updateForm := \<lparr>uf_status = uf_status (updateForm st), uf_message = [], uf_location = []\<rparr>,
                 showUpdateForm := False\<rparr>"
  obtain r1 w1 where 1: "from_track_updates_insert uid ?v w = (r1, w1)"
    by (cases "from_track_updates_insert uid ?v w")
  obtain r2 w2 where 2: "from_tracks_update uid trackId ?p w1 = (r2, w2)"
    by (cases "from_tracks_update uid trackId ?p w1")
  obtain st3 w3 where 3: "loadTrackDetails user trackId (updateForm st) ?st w2 = (st3, w3)"
    by (cases "loadTrackDetails user trackId (updateForm st) ?st w2")
  have k1: "tracks_table (store w1) = tracks_table (store w)"
    using 1 by (rule insert_update_keeps_tracks)
  have k2: "map (\<lambda>t. (t_id t, tracking_number t)) (tracks_table (store w2)) =
            map (\<lambda>t. (t_id t, tracking_number t)) (tracks_table (store w1))"
    using 2 by (rule update_keeps_numbers) (simp add: status_patch_def)
  have k3: "store w3 = store w2"
    using 3 by (rule loadTrackDetails_store)
  show ?thesis
    using uid shown 1 2 3 k1 k2 k3
    by (auto simp: handleAddUpdate_def split: reply.splits option.splits)
qed

lemma handleUpdateTrack_numbers:
  "map (\<lambda>t. (t_id t, tracking_number t)) (tracks_table (store (snd (handleUpdateTrack user trackId st w)))) =
   map (\<lambda>t. (t_id t, tracking_number t)) (tracks_table (store w))"
proof (cases user)
  case None
  then show ?thesis by (simp add: handleUpdateTrack_def)
next
  case (Some uid)
  obtain r w1 where 1: "from_tracks_update uid trackId (fields_patch (editForm st)) w = (r, w1)"
    by (cases "from_tracks_update uid trackId (fields_patch (editForm st)) w")
  obtain st' w2 where 2: "loadTrackDetails user trackId (updateForm st) (st\<lparr>isEditing := False\<rparr>) w1 = (st', w2)"
    by (cases "loadTrackDetails user trackId (updateForm st) (st\<lparr>isEditing := False\<rparr>) w1")
  have k1: "map (\<lambda>t. (t_id t, tracking_number t)) (tracks_table (store w1)) =
            map (\<lambda>t. (t_id t, tracking_number t)) (tracks_table (store w))"
    using 1 by (rule update_keeps_numbers) (simp add: fields_patch_def)
  have k2: "store w2 = store w1"
    using 2 by (rule loadTrackDetails_store)
  show ?thesis
    using Some 1 2 k1 k2 by (auto simp: handleUpdateTrack_def split: reply.splits option.splits)
qed

lemma perform_all_numbers:
  "map (\<lambda>t. (t_id t, tracking_number t)) (tracks_table (store (perform_all acts w))) =
   map (\<lambda>t. (t_id t, tracking_number t)) (tracks_table (store w))"
proof (induction acts arbitrary: w)
  case Nil
  show ?case by simp
next
  case (Cons a acts)
  have "map (\<lambda>t. (t_id t, tracking_number t)) (tracks_table (store (perform a w))) =
        map (\<lambda>t. (t_id t, tracking_number t)) (tracks_table (store w))"
    by (cases a) (simp_all add: handleAddUpdate_numbers handleUpdateTrack_numbers)
  with Cons.IH [of "perform a w"] show ?case by simp
qed

text \<open>
  Claim C6. A track receives its tracking number when it is created, and nothing that
  happens to it afterwards changes it: a successful \<open>handleSubmit\<close> adds one row that
  carries the number it generated, and after any sequence of appended updates and
  edits, by anyone, on any track and with any fate of the requests, every track still
  has the number it had, the new one the number generated at creation.
\<close>

theorem tracking_number_fixed_at_creation:
  assumes ok: "ct_error (fst (handleSubmit (Some uid) now rnd36 st w)) = None"
  shows "\<exists>row. tracks_table (store (snd (handleSubmit (Some uid) now rnd36 st w))) =
                 tracks_table (store w) @ [row] \<and>
               tracking_number row = generateTrackingNumber now rnd36 \<and>
               map (\<lambda>t. (t_id t, tracking_number t))
                 (tracks_table (store (perform_all acts (snd (handleSubmit (Some uid) now rnd36 st w))))) =
               map (\<lambda>t. (t_id t, tracking_number t)) (tracks_table (store w)) @
                 [(t_id row, generateTrackingNumber now rnd36)]"
proof -
  let ?v = "\<lparr>ti_title = cf_title (form st), ti_description = cf_description (form st),
             ti_status = cf_status (form st), ti_priority = cf_priority (form st),
             ti_tracking_number = generateTrackingNumber now rnd36, ti_user_id = uid\<rparr>"
  obtain r w1 where 1: "from_tracks_insert uid ?v w = (r, w1)"
    by (cases "from_tracks_insert uid ?v w")
  have r: "r = Reply None"
    using ok 1 by (auto simp: handleSubmit_def Let_def split: reply.splits option.splits)
  then have w1: "snd (handleSubmit (Some uid) now rnd36 st w) = w1"
    using 1 by (simp add: handleSubmit_def Let_def)
  obtain clk new_id where "sql_insert_track uid clk new_id ?v (store w) = Inr (store w1)"
    using write_request_done [OF 1 [unfolded r from_tracks_insert_def]] by blast
  from sql_insert_track_Inr [OF this]
  obtain row where row: "tracks_table (store w1) = tracks_table (store w) @ [row]"
      "tracking_number row = generateTrackingNumber now rnd36"
    by simp
  have "map (\<lambda>t. (t_id t, tracking_number t)) (tracks_table (store (perform_all acts w1))) =
        map (\<lambda>t. (t_id t, tracking_number t)) (tracks_table (store w)) @
          [(t_id row, generateTrackingNumber now rnd36)]"
    using perform_all_numbers [of acts w1] row by simp
  with row w1 show ?thesis by auto
qed

theorem tracking_number_fixed_at_creation_witness:
  "ct_error (fst (handleSubmit (Some 7) 1700000000000 ''0.9kq2x7'' titled_form sample_world)) = None \<and>
   map (\<lambda>t. (t_id t, tracking_number t))
     (tracks_table (store (perform_all
        [AppendUpdate (Some 7) 5 sample_detail, EditFields (Some 7) 5 sample_detail]
        (snd (handleSubmit (Some 7) 1700000000000 ''0.9kq2x7'' titled_form sample_world))))) =
     [(1, ''TRK-LOYW3V28-4FZY''), (5, ''TRK-LOYW3V28-9KQ2'')] \<and>
   map status
     (tracks_table (store (perform_all
        [AppendUpdate (Some 7) 5 sample_detail, EditFields (Some 7) 5 sample_detail]
        (snd (handleSubmit (Some 7) 1700000000000 ''0.9kq2x7'' titled_form sample_world))))) =
     [''pending'', ''completed'']"
proof -
  have g: "generateTrackingNumber 1700000000000 ''0.9kq2x7'' = ''TRK-LOYW3V28-9KQ2''"
    by (simp add: string_defs)
  have ok: "ct_error (fst (handleSubmit (Some 7) 1700000000000 ''0.9kq2x7'' titled_form sample_world)) = None"
    by (simp add: handleSubmit_def Let_def g store_defs sample_defs)
  have w1: "store (snd (handleSubmit (Some 7) 1700000000000 ''0.9kq2x7'' titled_form sample_world)) =
      \<lparr>tracks_table = [sample_track,
          \<lparr>t_id = 5, title = ''Ship widget'', description = ''no title yet'', category_id = None,
           status = ''pending'', priority = ''medium'', tracking_number = ''TRK-LOYW3V28-9KQ2'',
           user_id = 7, created_at = 31, updated_at = 31\<rparr>],
       track_updates_table = []\<rparr>"
    by (simp add: handleSubmit_def Let_def g store_defs sample_defs)
  have st: "map status
     (tracks_table (store (perform_all
        [AppendUpdate (Some 7) 5 sample_detail, EditFields (Some 7) 5 sample_detail]
        (snd (handleSubmit (Some 7) 1700000000000 ''0.9kq2x7'' titled_form sample_world))))) =
     [''pending'', ''completed'']"
    by (simp add: handleSubmit_def Let_def g store_defs component_defs sample_defs)
  show ?thesis
    using tracking_number_fixed_at_creation [OF ok,
        of "[AppendUpdate (Some 7) 5 sample_detail, EditFields (Some 7) 5 sample_detail]"]
      ok st w1 g
    by (auto simp: sample_defs)
qed

section \<open>The aggregate counts\<close>

text \<open>
  Claim C4, as amended. From the owner's tracks the aggregate counts are the total
  number of tracks and one count for each of \<open>pending\<close>, \<open>in_progress\<close> and
  \<open>completed\<close>, each the number of the owner's tracks with that status; the result has
  no count for \<open>cancelled\<close>.
\<close>

theorem loadStats_counts:
  assumes healthy: "set (take 1 (network w)) \<subseteq> {Healthy}"
  shows "fst (loadStats (Some uid) stats w) =
           \<lparr>total = length (filter (\<lambda>t. user_id t = uid) (tracks_table (store w))),
            pending = length (filter (\<lambda>t. user_id t = uid \<and> status t = ''pending'') (tracks_table (store w))),
            inProgress = length (filter (\<lambda>t. user_id t = uid \<and> status t = ''in_progress'') (tracks_table (store w))),
            completed = length (filter (\<lambda>t. user_id t = uid \<and> status t = ''completed'') (tracks_table (store w)))\<rparr>"
proof -
  obtain r w1 where 1: "from_tracks_select_status uid uid w = (r, w1)"
    by (cases "from_tracks_select_status uid uid w")
  have one: "take 1 (network w) = take (Suc 0) (network w)"
    by simp
  have r: "r = Reply (Some (sql_select_status uid uid (store w)))"
    using read_request_healthy(1) [OF healthy [unfolded one] 1 [unfolded from_tracks_select_status_def]]
    by simp
  have count: "length (filter (\<lambda>s. s = c) (sql_select_status uid uid (store w))) =
      length (filter (\<lambda>t. user_id t = uid \<and> status t = c) (tracks_table (store w)))" for c
    by (simp add: sql_select_status_def filter_map o_def conj_commute)
  have "length (sql_select_status uid uid (store w)) =
      length (filter (\<lambda>t. user_id t = uid) (tracks_table (store w)))"
    by (simp add: sql_select_status_def)
  with 1 r count show ?thesis
    by (simp add: loadStats_def)
qed

theorem loadStats_counts_witness:
  "set (take 1 (network stats_world)) \<subseteq> {Healthy} \<and>
   fst (loadStats (Some 7) empty_stats stats_world) =
     \<lparr>total = 3, pending = 1, inProgress = 0, completed = 0\<rparr>"
  using loadStats_counts [of stats_world 7 empty_stats]
  by (simp add: sample_defs)

text \<open>
  Claim C4 as stated fails: of three tracks two are cancelled, and no field of the
  result is the count of the cancelled tracks.
\<close>

theorem no_cancelled_count_counterexample:
  "length (filter (\<lambda>t. user_id t = 7 \<and> status t = ''cancelled'') (tracks_table (store stats_world))) = 2 \<and>
   fst (loadStats (Some 7) empty_stats stats_world) =
     \<lparr>total = 3, pending = 1, inProgress = 0, completed = 0\<rparr>"
  by (simp add: store_defs component_defs sample_defs)

section \<open>The list of tracks\<close>

lemma mset_insert_by: "mset (insert_by cmp x xs) = add_mset x (mset xs)"
  by (induction xs) auto

lemma mset_sort_by: "mset (sort_by cmp xs) = mset xs"
  unfolding sort_by_def by (induction xs) (auto simp: mset_insert_by)

lemma set_sort_by: "set (sort_by cmp xs) = set xs"
  using mset_sort_by [of cmp xs] by (metis set_mset_mset)

lemma sorted_insert_by:
  assumes total: "\<And>a b. cmp a b \<le> 0 \<or> cmp b a \<le> 0"
    and trans: "\<And>a b c. cmp a b \<le> 0 \<Longrightarrow> cmp b c \<le> 0 \<Longrightarrow> cmp a c \<le> 0"
  shows "sorted_wrt (\<lambda>a b. cmp a b \<le> 0) xs \<Longrightarrow> sorted_wrt (\<lambda>a b. cmp a b \<le> 0) (insert_by cmp x xs)"
proof (induction xs)
  case Nil
  show ?case by simp
next
  case (Cons y ys)
  show ?case
  proof (cases "cmp x y \<le> 0")
    case True
    with Cons.prems trans show ?thesis by auto
  next
    case False
    with total have "cmp y x \<le> 0" by blast
    moreover have "set (insert_by cmp x ys) = insert x (set ys)"
      using mset_insert_by [of cmp x ys] by (metis set_mset_add_mset_insert set_mset_mset)
    ultimately show ?thesis
      using False Cons by auto
  qed
qed

lemma sorted_sort_by:
  assumes "\<And>a b. cmp a b \<le> 0 \<or> cmp b a \<le> 0"
    and "\<And>a b c. cmp a b \<le> 0 \<Longrightarrow> cmp b c \<le> 0 \<Longrightarrow> cmp a c \<le> 0"
  shows "sorted_wrt (\<lambda>a b. cmp a b \<le> 0) (sort_by cmp xs)"
  unfolding sort_by_def
  by (induction xs) (auto intro: sorted_insert_by [OF assms])

lemma filterAndSortTracks_result:
  assumes "tracks st < length h"
  shows "snd (filterAndSortTracks lc st h) ! filteredTracks (fst (filterAndSortTracks lc st h)) =
           sort_by (\<lambda>a b. if sortBy st = ByDate then int (updated_at b) - int (updated_at a)
                           else lc (title a) (title b))
             (filter (\<lambda>t. priorityFilter st = ''all'' \<or> priority t = priorityFilter st)
               (filter (\<lambda>t. statusFilter st = ''all'' \<or> status t = statusFilter st)
                 (filter (\<lambda>t. searchQuery st = [] \<or>
                            includes_str (toLowerCase (title t)) (toLowerCase (searchQuery st)) \<or>
                            includes_str (toLowerCase (tracking_number t)) (toLowerCase (searchQuery st)) \<or>
                            includes_str (toLowerCase (description t)) (toLowerCase (searchQuery st)))
                   (h ! tracks st))))"
    and "take (length h) (snd (filterAndSortTracks lc st h)) = h"
    and "tracks (fst (filterAndSortTracks lc st h)) = tracks st"
    and "length h \<le> filteredTracks (fst (filterAndSortTracks lc st h))"
  using assms
  by (simp_all add: filterAndSortTracks_def spread_def array_filter_def new_array_def array_sort_def
        Let_def nth_append)

text \<open>
  Claim C8, as amended. For a non-empty query a track of the list is in the result of
  the filter exactly when the lowercased query is a substring of its lowercased title,
  or of its lowercased tracking number, or of its lowercased description, and the
  track also passes the status filter and the priority filter, each of which is either
  \<open>all\<close> or the value the track must have.
\<close>

theorem filter_membership:
  assumes "tracks st < length h" and "searchQuery st \<noteq> []"
  shows "t \<in> set (snd (filterAndSortTracks lc st h) ! filteredTracks (fst (filterAndSortTracks lc st h))) \<longleftrightarrow>
         t \<in> set (h ! tracks st) \<and>
         (sublist (toLowerCase (searchQuery st)) (toLowerCase (title t)) \<or>
          sublist (toLowerCase (searchQuery st)) (toLowerCase (tracking_number t)) \<or>
          sublist (toLowerCase (searchQuery st)) (toLowerCase (description t))) \<and>
         (statusFilter st = ''all'' \<or> status t = statusFilter st) \<and>
         (priorityFilter st = ''all'' \<or> priority t = priorityFilter st)"
  unfolding filterAndSortTracks_result(1) [OF assms(1)] set_sort_by
  using assms(2) by (auto simp: includes_str_def)

theorem filter_membership_witness:
  "tracks sample_list < length sample_heap \<and> searchQuery sample_list \<noteq> [] \<and>
   track_b \<in> set (snd (filterAndSortTracks by_length sample_list sample_heap) !
                    filteredTracks (fst (filterAndSortTracks by_length sample_list sample_heap))) \<and>
   sublist (toLowerCase (searchQuery sample_list)) (toLowerCase (tracking_number track_b)) \<and>
   status track_b = statusFilter sample_list"
proof -
  have 1: "tracks sample_list < length sample_heap" and 2: "searchQuery sample_list \<noteq> []"
    by (simp_all add: sample_defs)
  have 3: "sublist (toLowerCase (searchQuery sample_list)) (toLowerCase (tracking_number track_b))"
    by (simp add: sample_defs string_defs)
  have 4: "status track_b = statusFilter sample_list" and 5: "priorityFilter sample_list = ''all''"
    and 6: "track_b \<in> set (sample_heap ! tracks sample_list)"
    by (simp_all add: sample_defs)
  have 7: "track_b \<in> set (snd (filterAndSortTracks by_length sample_list sample_heap) !
                    filteredTracks (fst (filterAndSortTracks by_length sample_list sample_heap)))"
    using filter_membership [OF 1 2, of track_b by_length] 3 4 5 6 by blast
  from 1 2 7 3 4 show ?thesis
    by (intro conjI)
qed

text \<open>
  Claim C8 as stated fails: the query \<open>a\<close> is a substring of the title of the first
  track, and the track is not in the result, because the status filter asks for
  \<open>completed\<close> and the track is pending.
\<close>

theorem text_match_not_enough_counterexample:
  "searchQuery sample_list \<noteq> [] \<and>
   track_a \<in> set (sample_heap ! tracks sample_list) \<and>
   sublist (toLowerCase (searchQuery sample_list)) (toLowerCase (title track_a)) \<and>
   track_a \<notin> set (snd (filterAndSortTracks by_length sample_list sample_heap) !
                    filteredTracks (fst (filterAndSortTracks by_length sample_list sample_heap)))"
proof -
  have valid: "tracks sample_list < length sample_heap"
    by (simp add: sample_defs)
  have 1: "searchQuery sample_list \<noteq> []"
    and 2: "track_a \<in> set (sample_heap ! tracks sample_list)"
    by (simp_all add: sample_list_def sample_heap_def)
  have 3: "sublist (toLowerCase (searchQuery sample_list)) (toLowerCase (title track_a))"
    by (simp add: sample_defs string_defs)
  have "status track_a \<noteq> statusFilter sample_list" and "statusFilter sample_list \<noteq> ''all''"
    by (simp_all add: sample_defs)
  then have 4: "track_a \<notin> set (snd (filterAndSortTracks by_length sample_list sample_heap) !
                    filteredTracks (fst (filterAndSortTracks by_length sample_list sample_heap)))"
    unfolding filterAndSortTracks_result(1) [OF valid] set_sort_by by simp
  from 1 2 3 4 show ?thesis
    by (intro conjI)
qed

text \<open>
  Claim C10. With an empty query and both filters set to \<open>all\<close> the operation only
  reorders: the result holds exactly the tracks of the input, each as often as the
  input does; every array that existed before the call, the input among them, has the
  content it had, and the component still refers to the same input; the result is in
  the order of the sort key, newest first by date, or by title under any collation
  that is a total preorder.
\<close>

theorem no_filter_only_reorders:
  assumes "tracks st < length h" and "searchQuery st = []"
    and "statusFilter st = ''all''" and "priorityFilter st = ''all''"
  shows "mset (snd (filterAndSortTracks lc st h) ! filteredTracks (fst (filterAndSortTracks lc st h))) =
           mset (h ! tracks st) \<and>
         take (length h) (snd (filterAndSortTracks lc st h)) = h \<and>
         snd (filterAndSortTracks lc st h) ! tracks st = h ! tracks st \<and>
         tracks (fst (filterAndSortTracks lc st h)) = tracks st \<and>
         (sortBy st = ByDate \<longrightarrow>
            sorted_wrt (\<lambda>a b. updated_at b \<le> updated_at a)
              (snd (filterAndSortTracks lc st h) ! filteredTracks (fst (filterAndSortTracks lc st h)))) \<and>
         (sortBy st = ByTitle \<and> (\<forall>a b. lc a b \<le> 0 \<or> lc b a \<le> 0) \<and>
            (\<forall>a b c. lc a b \<le> 0 \<and> lc b c \<le> 0 \<longrightarrow> lc a c \<le> 0) \<longrightarrow>
            sorted_wrt (\<lambda>a b. lc (title a) (title b) \<le> 0)
              (snd (filterAndSortTracks lc st h) ! filteredTracks (fst (filterAndSortTracks lc st h))))"
proof -
  let ?out = "snd (filterAndSortTracks lc st h) ! filteredTracks (fst (filterAndSortTracks lc st h))"
  note res = filterAndSortTracks_result [OF assms(1), of lc]
  have out: "?out = sort_by (\<lambda>a b. if sortBy st = ByDate then int (updated_at b) - int (updated_at a)
                                    else lc (title a) (title b)) (h ! tracks st)"
    using res(1) assms(2-4) by simp
  have perm: "mset ?out = mset (h ! tracks st)"
    unfolding out by (rule mset_sort_by)
  have "snd (filterAndSortTracks lc st h) ! tracks st =
        take (length h) (snd (filterAndSortTracks lc st h)) ! tracks st"
    using assms(1) by simp
  then have same: "snd (filterAndSortTracks lc st h) ! tracks st = h ! tracks st"
    using res(2) by simp
  have date: "sorted_wrt (\<lambda>a b. updated_at b \<le> updated_at a) ?out" if "sortBy st = ByDate"
  proof -
    have "sorted_wrt (\<lambda>a b. int (updated_at b) - int (updated_at a) \<le> 0)
            (sort_by (\<lambda>a b. int (updated_at b) - int (updated_at a)) (h ! tracks st))"
      by (rule sorted_sort_by) auto
    then show ?thesis
      unfolding out using that by simp
  qed
  have title: "sorted_wrt (\<lambda>a b. lc (title a) (title b) \<le> 0) ?out"
    if "sortBy st = ByTitle" and total: "\<forall>a b. lc a b \<le> 0 \<or> lc b a \<le> 0"
      and trans: "\<forall>a b c. lc a b \<le> 0 \<and> lc b c \<le> 0 \<longrightarrow> lc a c \<le> 0"
  proof -
    have "sorted_wrt (\<lambda>a b. lc (title a) (title b) \<le> 0)
            (sort_by (\<lambda>a b. lc (title a) (title b)) (h ! tracks st))"
    proof (rule sorted_sort_by)
      show "lc (title a) (title b) \<le> 0 \<or> lc (title b) (title a) \<le> 0" for a b :: track_row
        using total by blast
      show "lc (title a) (title b) \<le> 0 \<Longrightarrow> lc (title b) (title c) \<le> 0 \<Longrightarrow> lc (title a) (title c) \<le> 0"
        for a b c :: track_row
        using trans by blast
    qed
    then show ?thesis
      unfolding out using that(1) by simp
  qed
  show ?thesis
    using perm res(2,3) same date title by blast
qed

theorem no_filter_only_reorders_witness:
  "tracks unfiltered_list < length sample_heap \<and> searchQuery unfiltered_list = [] \<and>
   statusFilter unfiltered_list = ''all'' \<and> priorityFilter unfiltered_list = ''all'' \<and>
   sample_heap ! tracks unfiltered_list = [track_a, track_b] \<and>
   snd (filterAndSortTracks by_length unfiltered_list sample_heap) !
     filteredTracks (fst (filterAndSortTracks by_length unfiltered_list sample_heap)) = [track_b, track_a] \<and>
   snd (filterAndSortTracks by_length unfiltered_list sample_heap) ! tracks unfiltered_list =
     [track_a, track_b] \<and>
   mset (snd (filterAndSortTracks by_length unfiltered_list sample_heap) !
     filteredTracks (fst (filterAndSortTracks by_length unfiltered_list sample_heap))) =
     mset (sample_heap ! tracks unfiltered_list)"
proof -
  have 1: "tracks unfiltered_list < length sample_heap" and 2: "searchQuery unfiltered_list = []"
    and 3: "statusFilter unfiltered_list = ''all''" and 4: "priorityFilter unfiltered_list = ''all''"
    by (simp_all add: sample_defs)
  have 5: "sample_heap ! tracks unfiltered_list = [track_a, track_b]"
    by (simp add: unfiltered_list_def sample_list_def sample_heap_def)
  have 6: "snd (filterAndSortTracks by_length unfiltered_list sample_heap) !
     filteredTracks (fst (filterAndSortTracks by_length unfiltered_list sample_heap)) = [track_b, track_a]"
    unfolding filterAndSortTracks_result(1) [OF 1]
    by (simp add: sort_by_def unfiltered_list_def sample_list_def sample_heap_def track_a_def track_b_def)
  note main = no_filter_only_reorders [OF 1 2 3 4, of by_length]
  have 7: "snd (filterAndSortTracks by_length unfiltered_list sample_heap) ! tracks unfiltered_list =
     [track_a, track_b]"
    using main [THEN conjunct2, THEN conjunct2, THEN conjunct1] 5 by simp
  have 8: "mset (snd (filterAndSortTracks by_length unfiltered_list sample_heap) !
     filteredTracks (fst (filterAndSortTracks by_length unfiltered_list sample_heap))) =
     mset (sample_heap ! tracks unfiltered_list)"
    using main by (rule conjunct1)
  from 1 2 3 4 5 6 7 8 show ?thesis
    by (intro conjI)
qed

end
